theory Spec2Isabelle
  imports Main
begin

section \<open>Python values, exceptions and keyword arguments\<close>

text \<open>
  The values that cross the interface of \<^verbatim>\<open>telebot/states/asyncio/context.py\<close>.
  \<open>PState n\<close> is an instance of \<^verbatim>\<open>telebot.states.State\<close> whose \<^verbatim>\<open>name\<close> attribute holds
  \<open>n\<close>; \<open>PObj k\<close> is an opaque object of the bot layer (an awaitable, the data context
  manager of \<^verbatim>\<open>retrieve_data\<close>).
\<close>

datatype pyval =
    PNone
  | PBool bool
  | PInt int
  | PStr string
  | PState pyval
  | PObj nat

text \<open>
  \<open>TypeError k\<close> is the error of a call that receives the keyword \<open>k\<close> twice;
  \<open>Raised s\<close> is any exception of the collaborators.
\<close>

datatype pyexn = TypeError string | Raised string

type_synonym kwargs = "(string \<times> pyval) list"

text \<open>
  A call \<^verbatim>\<open>f(k1=v1, ..., **kwargs)\<close>: Python raises \<^verbatim>\<open>TypeError\<close> before \<^verbatim>\<open>f\<close> is entered
  when a key of \<^verbatim>\<open>kwargs\<close> repeats one of the explicit keywords, and passes the explicit
  keywords followed by the entries of \<^verbatim>\<open>kwargs\<close> otherwise.
\<close>

definition duplicate_keywords :: "kwargs \<Rightarrow> kwargs \<Rightarrow> string list" where
  "duplicate_keywords explicit extra =
     filter (\<lambda>k. k \<in> set (map fst explicit)) (map fst extra)"

definition keyword_arguments :: "kwargs \<Rightarrow> kwargs \<Rightarrow> pyexn + kwargs" where
  "keyword_arguments explicit extra =
     (case duplicate_keywords explicit extra of
        [] \<Rightarrow> Inr (explicit @ extra)
      | k # ks \<Rightarrow> Inl (TypeError k))"

text \<open>
  The keywords written at a call are merged from left to right, and a keyword that was
  already given raises \<^verbatim>\<open>TypeError\<close> too: \<open>first_repeated [] ks\<close> is that keyword, if any.
\<close>

fun first_repeated :: "string list \<Rightarrow> string list \<Rightarrow> string option" where
  "first_repeated seen [] = None"
| "first_repeated seen (k # ks) =
     (if k \<in> set seen then Some k else first_repeated (k # seen) ks)"

section \<open>Objects and the world\<close>

type_synonym ref = nat

text \<open>
  The bot object (\<^verbatim>\<open>AsyncTeleBot\<close>): its \<^verbatim>\<open>bot_id\<close> attribute and the state storage it owns.
\<close>

record 's AsyncTeleBot =
  telebot_bot_id :: int
  storage :: 's

text \<open>
  \<^verbatim>\<open>StateContext.__init__\<close> assigns three attributes: \<^verbatim>\<open>message\<close>, \<^verbatim>\<open>bot\<close> (a reference to
  the bot object) and \<^verbatim>\<open>bot_id\<close>. The type \<open>'m\<close> stands for
  \<^verbatim>\<open>Union[Message, CallbackQuery]\<close>.
\<close>

record 'm StateContext =
  message :: 'm
  bot_ref :: ref
  bot_id :: int

text \<open>What a method does to its collaborators, in order: calls of bot methods and awaits.\<close>

datatype bot_method =
  Set_state | Get_state | Delete_state | Reset_data | Retrieve_data | Add_data

datatype interaction = Call ref bot_method kwargs | Await pyval

record ('m, 's) world =
  contexts :: "ref \<Rightarrow> 'm StateContext"
  bots :: "ref \<Rightarrow> 's AsyncTeleBot"
  calls :: "interaction list"

section \<open>The collaborators\<close>

text \<open>
  Modelled from the spec: \<^verbatim>\<open>resolve_context\<close> of \<^verbatim>\<open>telebot.states\<close> is not among the
  sources. Its result is the addressing tuple of the spec's data model, (chat id, user id,
  optional business-connection id, bot id, optional message-thread id), and the function
  itself is a parameter.
\<close>

type_synonym context_tuple = "int \<times> int \<times> string option \<times> int \<times> int option"

text \<open>
  The bot's six storage methods and Python's \<^verbatim>\<open>await\<close> on what they return are parameters
  too: each may raise or return a value, and may change the bot objects.
\<close>

record ('m, 's) collaborators =
  resolve_context :: "'m \<Rightarrow> int \<Rightarrow> context_tuple"
  bot_method_call ::
    "ref \<Rightarrow> bot_method \<Rightarrow> kwargs \<Rightarrow> (ref \<Rightarrow> 's AsyncTeleBot)
      \<Rightarrow> (pyexn + pyval) \<times> (ref \<Rightarrow> 's AsyncTeleBot)"
  await_value ::
    "pyval \<Rightarrow> (ref \<Rightarrow> 's AsyncTeleBot) \<Rightarrow> (pyexn + pyval) \<times> (ref \<Rightarrow> 's AsyncTeleBot)"

type_synonym ('m, 's) action = "('m, 's) world \<Rightarrow> (pyexn + pyval) \<times> ('m, 's) world"

definition call_bot ::
  "('m, 's) collaborators \<Rightarrow> ref \<Rightarrow> bot_method \<Rightarrow> kwargs \<Rightarrow> ('m, 's) action" where
  "call_bot E b m kw w =
     (case bot_method_call E b m kw (bots w) of
        (r, bs) \<Rightarrow> (r, w\<lparr>bots := bs, calls := calls w @ [Call b m kw]\<rparr>))"

definition await :: "('m, 's) collaborators \<Rightarrow> pyval \<Rightarrow> ('m, 's) action" where
  "await E obj w =
     (case await_value E obj (bots w) of
        (r, bs) \<Rightarrow> (r, w\<lparr>bots := bs, calls := calls w @ [Await obj]\<rparr>))"

text \<open>\<^verbatim>\<open>await self.bot.m(...)\<close>: the call, then the await of what it returned.\<close>

definition await_call ::
  "('m, 's) collaborators \<Rightarrow> ref \<Rightarrow> bot_method \<Rightarrow> kwargs \<Rightarrow> ('m, 's) action" where
  "await_call E b m kw w =
     (case call_bot E b m kw w of
        (Inl e, w') \<Rightarrow> (Inl e, w')
      | (Inr obj, w') \<Rightarrow> await E obj w')"

fun opt_str :: "string option \<Rightarrow> pyval" where
  "opt_str None = PNone"
| "opt_str (Some s) = PStr s"

fun opt_int :: "int option \<Rightarrow> pyval" where
  "opt_int None = PNone"
| "opt_int (Some i) = PInt i"

section \<open>StateContext\<close>

definition init :: "ref \<Rightarrow> 'm \<Rightarrow> ref \<Rightarrow> ('m, 's) world \<Rightarrow> ('m, 's) world" where
  "init self msg b w =
     w\<lparr>contexts := (contexts w)
         (self := \<lparr>message = msg, bot_ref = b, bot_id = telebot_bot_id (bots w b)\<rparr>)\<rparr>"

text \<open>
  The bodies of the methods. Each reads \<^verbatim>\<open>self.message\<close>, \<^verbatim>\<open>self.bot\<close> and
  \<^verbatim>\<open>self.bot.bot_id\<close> when it runs.
\<close>

definition set_op :: "('m, 's) collaborators \<Rightarrow> ref \<Rightarrow> pyval \<Rightarrow> ('m, 's) action" where
  "set_op E self state w =
     (case resolve_context E (message (contexts w self))
             (telebot_bot_id (bots w (bot_ref (contexts w self)))) of
        (cid, uid, bcid, bid, mtid) \<Rightarrow>
          let state' = (case state of PState name \<Rightarrow> name | _ \<Rightarrow> state) in
          await_call E (bot_ref (contexts w self)) Set_state
            [(''chat_id'', PInt cid),
             (''user_id'', PInt uid),
             (''state'', state'),
             (''business_connection_id'', opt_str bcid),
             (''bot_id'', PInt bid),
             (''message_thread_id'', opt_int mtid)] w)"

definition get :: "('m, 's) collaborators \<Rightarrow> ref \<Rightarrow> ('m, 's) action" where
  "get E self w =
     (case resolve_context E (message (contexts w self))
             (telebot_bot_id (bots w (bot_ref (contexts w self)))) of
        (cid, uid, bcid, bid, mtid) \<Rightarrow>
          await_call E (bot_ref (contexts w self)) Get_state
            [(''chat_id'', PInt cid),
             (''user_id'', PInt uid),
             (''business_connection_id'', opt_str bcid),
             (''bot_id'', PInt bid),
             (''message_thread_id'', opt_int mtid)] w)"

definition delete :: "('m, 's) collaborators \<Rightarrow> ref \<Rightarrow> ('m, 's) action" where
  "delete E self w =
     (case resolve_context E (message (contexts w self))
             (telebot_bot_id (bots w (bot_ref (contexts w self)))) of
        (cid, uid, bcid, bid, mtid) \<Rightarrow>
          await_call E (bot_ref (contexts w self)) Delete_state
            [(''chat_id'', PInt cid),
             (''user_id'', PInt uid),
             (''business_connection_id'', opt_str bcid),
             (''bot_id'', PInt bid),
             (''message_thread_id'', opt_int mtid)] w)"

definition reset_data :: "('m, 's) collaborators \<Rightarrow> ref \<Rightarrow> ('m, 's) action" where
  "reset_data E self w =
     (case resolve_context E (message (contexts w self))
             (telebot_bot_id (bots w (bot_ref (contexts w self)))) of
        (cid, uid, bcid, bid, mtid) \<Rightarrow>
          await_call E (bot_ref (contexts w self)) Reset_data
            [(''chat_id'', PInt cid),
             (''user_id'', PInt uid),
             (''business_connection_id'', opt_str bcid),
             (''bot_id'', PInt bid),
             (''message_thread_id'', opt_int mtid)] w)"

text \<open>\<^verbatim>\<open>data\<close> is a plain \<^verbatim>\<open>def\<close>: it calls \<^verbatim>\<open>retrieve_data\<close> and returns the result as it is.\<close>

definition data :: "('m, 's) collaborators \<Rightarrow> ref \<Rightarrow> ('m, 's) action" where
  "data E self w =
     (case resolve_context E (message (contexts w self))
             (telebot_bot_id (bots w (bot_ref (contexts w self)))) of
        (cid, uid, bcid, bid, mtid) \<Rightarrow>
          call_bot E (bot_ref (contexts w self)) Retrieve_data
            [(''chat_id'', PInt cid),
             (''user_id'', PInt uid),
             (''business_connection_id'', opt_str bcid),
             (''bot_id'', PInt bid),
             (''message_thread_id'', opt_int mtid)] w)"

definition add_data :: "('m, 's) collaborators \<Rightarrow> ref \<Rightarrow> kwargs \<Rightarrow> ('m, 's) action" where
  "add_data E self kwargs w =
     (case resolve_context E (message (contexts w self))
             (telebot_bot_id (bots w (bot_ref (contexts w self)))) of
        (cid, uid, bcid, bid, mtid) \<Rightarrow>
          (case keyword_arguments
                  [(''chat_id'', PInt cid),
                   (''user_id'', PInt uid),
                   (''business_connection_id'', opt_str bcid),
                   (''bot_id'', PInt bid),
                   (''message_thread_id'', opt_int mtid)] kwargs of
             Inl e \<Rightarrow> (Inl e, w)
           | Inr kw \<Rightarrow> await_call E (bot_ref (contexts w self)) Add_data kw w))"

text \<open>
  Calling a method. An \<^verbatim>\<open>async def\<close> returns a coroutine and runs nothing yet; its body
  runs when the coroutine is awaited. \<^verbatim>\<open>data\<close> runs at once. The methods are called on the
  context object, which binds their parameter \<^verbatim>\<open>self\<close>: a keyword argument of
  \<^verbatim>\<open>add_data(self, **kwargs)\<close> (line 135) that is named \<^verbatim>\<open>self\<close> binds it a second time, and
  Python raises \<^verbatim>\<open>TypeError\<close> at the call, before any coroutine exists. It does the same,
  and first, when the call gives a keyword twice.
\<close>

datatype operation =
  Op_set pyval | Op_get | Op_delete | Op_reset_data | Op_data | Op_add_data kwargs

datatype ('m, 's) returned = Coroutine "('m, 's) action" | Object pyval

definition invoke ::
  "('m, 's) collaborators \<Rightarrow> ref \<Rightarrow> operation \<Rightarrow> ('m, 's) world
    \<Rightarrow> (pyexn + ('m, 's) returned) \<times> ('m, 's) world" where
  "invoke E self op w =
     (case op of
        Op_set state \<Rightarrow> (Inr (Coroutine (set_op E self state)), w)
      | Op_get \<Rightarrow> (Inr (Coroutine (get E self)), w)
      | Op_delete \<Rightarrow> (Inr (Coroutine (delete E self)), w)
      | Op_reset_data \<Rightarrow> (Inr (Coroutine (reset_data E self)), w)
      | Op_data \<Rightarrow>
          (case data E self w of
             (Inl e, w') \<Rightarrow> (Inl e, w')
           | (Inr v, w') \<Rightarrow> (Inr (Object v), w'))
      | Op_add_data kwargs \<Rightarrow>
          (case first_repeated [] (map fst kwargs) of
             Some k \<Rightarrow> (Inl (TypeError k), w)
           | None \<Rightarrow>
               if ''self'' \<in> set (map fst kwargs)
               then (Inl (TypeError ''self''), w)
               else (Inr (Coroutine (add_data E self kwargs)), w)))"

text \<open>
  The whole use of a method by a handler: \<^verbatim>\<open>await state_context.m(...)\<close> for the
  coroutines, \<^verbatim>\<open>state_context.data()\<close> for \<^verbatim>\<open>data\<close>.
\<close>

definition run :: "('m, 's) collaborators \<Rightarrow> ref \<Rightarrow> operation \<Rightarrow> ('m, 's) action" where
  "run E self op w =
     (case invoke E self op w of
        (Inl e, w') \<Rightarrow> (Inl e, w')
      | (Inr (Coroutine body), w') \<Rightarrow> body w'
      | (Inr (Object v), w') \<Rightarrow> (Inr v, w'))"

section \<open>Vocabulary of the properties\<close>

text \<open>The five keywords that address a state, and the tuple written as those keywords.\<close>

definition addressing_names :: "string list" where
  "addressing_names =
     [''chat_id'', ''user_id'', ''business_connection_id'', ''bot_id'', ''message_thread_id'']"

definition addressing_kwargs :: "context_tuple \<Rightarrow> kwargs" where
  "addressing_kwargs t =
     (case t of (cid, uid, bcid, bid, mtid) \<Rightarrow>
        [(''chat_id'', PInt cid),
         (''user_id'', PInt uid),
         (''business_connection_id'', opt_str bcid),
         (''bot_id'', PInt bid),
         (''message_thread_id'', opt_int mtid)])"

text \<open>
  The keywords of a call split into the addressing ones and the others, each part in the
  order of the call.
\<close>

definition addressing_part :: "kwargs \<Rightarrow> kwargs" where
  "addressing_part kw = filter (\<lambda>kv. fst kv \<in> set addressing_names) kw"

definition own_part :: "kwargs \<Rightarrow> kwargs" where
  "own_part kw = filter (\<lambda>kv. fst kv \<notin> set addressing_names) kw"

text \<open>What \<^verbatim>\<open>resolve_context(self.message, self.bot.bot_id)\<close> yields in a world.\<close>

definition resolved :: "('m, 's) collaborators \<Rightarrow> ref \<Rightarrow> ('m, 's) world \<Rightarrow> context_tuple" where
  "resolved E self w =
     resolve_context E (message (contexts w self))
       (telebot_bot_id (bots w (bot_ref (contexts w self))))"

text \<open>The storage operation that corresponds to each method, by name.\<close>

definition corresponding_method :: "operation \<Rightarrow> bot_method" where
  "corresponding_method op =
     (case op of
        Op_set state \<Rightarrow> Set_state
      | Op_get \<Rightarrow> Get_state
      | Op_delete \<Rightarrow> Delete_state
      | Op_reset_data \<Rightarrow> Reset_data
      | Op_data \<Rightarrow> Retrieve_data
      | Op_add_data kwargs \<Rightarrow> Add_data)"

text \<open>
  The arguments a method passes on besides the addressing: the state of \<^verbatim>\<open>set\<close> (the name of
  a \<^verbatim>\<open>State\<close>, anything else as it is) and the keyword arguments of \<^verbatim>\<open>add_data\<close>.
\<close>

definition own_arguments :: "operation \<Rightarrow> kwargs" where
  "own_arguments op =
     (case op of
        Op_set state \<Rightarrow> [(''state'', case state of PState name \<Rightarrow> name | _ \<Rightarrow> state)]
      | Op_add_data kwargs \<Rightarrow> kwargs
      | _ \<Rightarrow> [])"

text \<open>
  Python accepts the keywords of an operation: the keywords of \<^verbatim>\<open>add_data\<close> are distinct,
  none is named \<^verbatim>\<open>self\<close>, and none is named like an addressing keyword.
\<close>

definition accepted :: "operation \<Rightarrow> bool" where
  "accepted op =
     (case op of
        Op_add_data kwargs \<Rightarrow>
          distinct (map fst kwargs) \<and>
          filter (\<lambda>k. k = ''self'') (map fst kwargs) = [] \<and>
          filter (\<lambda>k. k \<in> set addressing_names) (map fst kwargs) = []
      | _ \<Rightarrow> True)"

text \<open>The interactions a complete use of a method adds to the log, and the calls among them.\<close>

definition issued ::
  "('m, 's) collaborators \<Rightarrow> ref \<Rightarrow> operation \<Rightarrow> ('m, 's) world \<Rightarrow> interaction list" where
  "issued E self op w = drop (length (calls w)) (calls (snd (run E self op w)))"

fun bot_calls :: "interaction list \<Rightarrow> (ref \<times> bot_method \<times> kwargs) list" where
  "bot_calls [] = []"
| "bot_calls (Call b m kw # xs) = (b, m, kw) # bot_calls xs"
| "bot_calls (Await obj # xs) = bot_calls xs"

definition methods_called ::
  "('m, 's) collaborators \<Rightarrow> ref \<Rightarrow> operation \<Rightarrow> ('m, 's) world \<Rightarrow> bot_method list" where
  "methods_called E self op w = map (\<lambda>c. fst (snd c)) (bot_calls (issued E self op w))"

text \<open>The keywords of the call of each method, written out once for the proofs.\<close>

definition forwarded :: "context_tuple \<Rightarrow> operation \<Rightarrow> kwargs" where
  "forwarded t op =
     (case op of
        Op_set state \<Rightarrow>
          take 2 (addressing_kwargs t)
            @ [(''state'', case state of PState name \<Rightarrow> name | _ \<Rightarrow> state)]
            @ drop 2 (addressing_kwargs t)
      | Op_add_data kwargs \<Rightarrow> addressing_kwargs t @ kwargs
      | _ \<Rightarrow> addressing_kwargs t)"

section \<open>A concrete bot, for the examples\<close>

text \<open>
  A message is a pair (chat id, user id) here. Every storage method of the first bot
  returns the awaitable \<open>PObj 1\<close>, which yields \<open>True\<close>; every one of the second raises.
\<close>

definition example_collaborators :: "(int \<times> int, unit) collaborators" where
  "example_collaborators =
     \<lparr>resolve_context = (\<lambda>m b. (fst m, snd m, None, b, Some 7)),
      bot_method_call = (\<lambda>b m kw bs. (Inr (PObj 1), bs)),
      await_value = (\<lambda>obj bs. (Inr (PBool True), bs))\<rparr>"

definition failing_collaborators :: "(int \<times> int, unit) collaborators" where
  "failing_collaborators =
     example_collaborators
       \<lparr>bot_method_call := (\<lambda>b m kw bs. (Inl (Raised ''storage unavailable''), bs))\<rparr>"

definition initial_world :: "(int \<times> int, unit) world" where
  "initial_world =
     \<lparr>contexts = (\<lambda>r. \<lparr>message = (0, 0), bot_ref = 0, bot_id = 0\<rparr>),
      bots = (\<lambda>r. \<lparr>telebot_bot_id = 41, storage = ()\<rparr>),
      calls = []\<rparr>"

text \<open>The context 1 constructed for the message (10, 20) and the bot 0.\<close>

definition constructed :: "(int \<times> int, unit) world" where
  "constructed = init 1 (10, 20) 0 initial_world"

text \<open>The same world after the bot's \<^verbatim>\<open>bot_id\<close> has changed from 41 to 42.\<close>

definition renamed :: "(int \<times> int, unit) world" where
  "renamed =
     constructed\<lparr>bots := (bots constructed)(0 := \<lparr>telebot_bot_id = 42, storage = ()\<rparr>)\<rparr>"

text \<open>The world with another value in the \<^verbatim>\<open>bot_id\<close> attribute of a context.\<close>

definition recache :: "ref \<Rightarrow> int \<Rightarrow> ('m, 's) world \<Rightarrow> ('m, 's) world" where
  "recache self cached w =
     w\<lparr>contexts := (contexts w)(self := (contexts w self)\<lparr>bot_id := cached\<rparr>)\<rparr>"

section \<open>Lemmas about the model\<close>

lemma calls_call_bot: "calls (snd (call_bot E b m kw w)) = calls w @ [Call b m kw]"
  by (simp add: call_bot_def split: prod.splits)

lemma calls_await_call:
  "\<exists>xs. calls (snd (await_call E b m kw w)) = calls w @ Call b m kw # xs \<and> bot_calls xs = []"
  by (auto simp add: await_call_def call_bot_def await_def split: prod.splits sum.splits)

lemma first_repeated_None:
  "(first_repeated seen ks = None) = (distinct ks \<and> set ks \<inter> set seen = {})"
  by (induction ks arbitrary: seen) auto

lemma first_repeated_distinct: "distinct ks \<Longrightarrow> first_repeated [] ks = None"
  by (simp add: first_repeated_None)

lemma no_keyword_named: "(filter (\<lambda>k. k = a) ks = []) = (a \<notin> set ks)"
  by (induction ks) auto

lemma duplicate_keywords_addressing:
  "duplicate_keywords (addressing_kwargs t) kwargs =
     filter (\<lambda>k. k \<in> set addressing_names) (map fst kwargs)"
  by (cases t) (simp add: duplicate_keywords_def addressing_kwargs_def addressing_names_def)

lemma run_unfold:
  "run E self op w =
     (if accepted op then
        (if op = Op_data then call_bot else await_call) E (bot_ref (contexts w self))
          (corresponding_method op) (forwarded (resolved E self w) op) w
      else (Inl (TypeError
              (case op of
                 Op_add_data kwargs \<Rightarrow>
                   (case first_repeated [] (map fst kwargs) of
                      Some k \<Rightarrow> k
                    | None \<Rightarrow>
                        if ''self'' \<in> set (map fst kwargs) then ''self''
                        else hd (filter (\<lambda>k. k \<in> set addressing_names) (map fst kwargs)))
               | _ \<Rightarrow> [])), w))"
proof (cases "resolved E self w")
  case (fields cid uid bcid bid mtid)
  then have r: "resolve_context E (message (contexts w self))
       (telebot_bot_id (bots w (bot_ref (contexts w self)))) = (cid, uid, bcid, bid, mtid)"
    by (simp add: resolved_def)
  show ?thesis
  proof (cases op)
    case (Op_add_data kwargs)
    have d: "duplicate_keywords
              [(''chat_id'', PInt cid), (''user_id'', PInt uid),
               (''business_connection_id'', opt_str bcid), (''bot_id'', PInt bid),
               (''message_thread_id'', opt_int mtid)] kwargs =
            filter (\<lambda>k. k \<in> set addressing_names) (map fst kwargs)"
      using duplicate_keywords_addressing [of "(cid, uid, bcid, bid, mtid)" kwargs]
      by (simp add: addressing_kwargs_def)
    show ?thesis
    proof (cases "first_repeated [] (map fst kwargs)")
      case (Some k)
      then have "\<not> distinct (map fst kwargs)"
        using first_repeated_None [of "[]" "map fst kwargs"] by simp
      then show ?thesis
        using Some by (simp add: Op_add_data run_def invoke_def accepted_def)
    next
      case None
      then have dist: "distinct (map fst kwargs)"
        using first_repeated_None [of "[]" "map fst kwargs"] by simp
      show ?thesis
      proof (cases "''self'' \<in> set (map fst kwargs)")
        case True
        then have "filter (\<lambda>k. k = ''self'') (map fst kwargs) \<noteq> []"
          by (simp only: no_keyword_named) simp
        then show ?thesis
          using True None by (simp add: Op_add_data run_def invoke_def accepted_def)
      next
        case False
        then have "filter (\<lambda>k. k = ''self'') (map fst kwargs) = []"
          by (simp only: no_keyword_named) simp
        then show ?thesis
          using False None dist
          by (simp add: Op_add_data run_def invoke_def add_data_def r fields accepted_def
              keyword_arguments_def d forwarded_def addressing_kwargs_def
              corresponding_method_def split: list.splits)
      qed
    qed
  qed (simp_all add: run_def invoke_def set_op_def get_def delete_def reset_data_def data_def
      r fields accepted_def forwarded_def addressing_kwargs_def corresponding_method_def
      split: prod.splits sum.splits)
qed

lemmas example_defs =
  example_collaborators_def initial_world_def constructed_def init_def

lemmas eval_defs =
  run_def invoke_def set_op_def get_def delete_def reset_data_def data_def add_data_def
  await_call_def call_bot_def await_def keyword_arguments_def duplicate_keywords_def
  issued_def addressing_part_def addressing_names_def addressing_kwargs_def accepted_def
  corresponding_method_def resolved_def

lemma bot_calls_issued:
  "bot_calls (issued E self op w) =
     (if accepted op
      then [(bot_ref (contexts w self), corresponding_method op,
             forwarded (resolved E self w) op)]
      else [])"
proof (cases "accepted op")
  case True
  show ?thesis
  proof (cases "op = Op_data")
    case True
    then show ?thesis
      using \<open>accepted op\<close> calls_call_bot [of E "bot_ref (contexts w self)"
          "corresponding_method op" "forwarded (resolved E self w) op" w]
      by (simp add: issued_def run_unfold)
  next
    case False
    obtain xs where
      "calls (snd (await_call E (bot_ref (contexts w self)) (corresponding_method op)
         (forwarded (resolved E self w) op) w)) =
       calls w @ Call (bot_ref (contexts w self)) (corresponding_method op)
         (forwarded (resolved E self w) op) # xs"
      and "bot_calls xs = []"
      using calls_await_call by blast
    then show ?thesis
      using False \<open>accepted op\<close> by (simp add: issued_def run_unfold)
  qed
next
  case False
  then show ?thesis by (simp add: issued_def run_unfold)
qed

lemma no_addressing_keys:
  "filter (\<lambda>k. k \<in> set addressing_names) (map fst kwargs) = [] \<Longrightarrow>
   filter (\<lambda>kv. fst kv \<in> set addressing_names) kwargs = [] \<and>
   filter (\<lambda>kv. fst kv \<notin> set addressing_names) kwargs = kwargs"
  by (induction kwargs) (auto split: if_splits)

lemma addressing_part_addressing_kwargs:
  "addressing_part (addressing_kwargs t) = addressing_kwargs t"
  by (cases t) (simp add: addressing_part_def addressing_kwargs_def addressing_names_def)

lemma own_part_addressing_kwargs: "own_part (addressing_kwargs t) = []"
  by (cases t) (simp add: own_part_def addressing_kwargs_def addressing_names_def)

lemma addressing_part_forwarded:
  "accepted op \<Longrightarrow> addressing_part (forwarded t op) = addressing_kwargs t"
proof (cases op)
  case (Op_add_data kwargs)
  assume "accepted op"
  then have "filter (\<lambda>kv. fst kv \<in> set addressing_names) kwargs = []"
    using no_addressing_keys [of kwargs] by (simp add: accepted_def Op_add_data)
  then show ?thesis
    using addressing_part_addressing_kwargs [of t]
    by (simp add: forwarded_def Op_add_data addressing_part_def)
next
  case (Op_set state)
  show ?thesis
    by (cases t) (simp add: forwarded_def Op_set addressing_part_def addressing_kwargs_def
        addressing_names_def)
qed (simp_all add: forwarded_def addressing_part_addressing_kwargs)

lemma own_part_forwarded:
  "accepted op \<Longrightarrow> own_part (forwarded t op) = own_arguments op"
proof (cases op)
  case (Op_add_data kwargs)
  assume "accepted op"
  then have "filter (\<lambda>kv. fst kv \<notin> set addressing_names) kwargs = kwargs"
    using no_addressing_keys [of kwargs] by (simp add: accepted_def Op_add_data)
  then show ?thesis
    using own_part_addressing_kwargs [of t]
    by (simp add: forwarded_def Op_add_data own_part_def own_arguments_def)
next
  case (Op_set state)
  show ?thesis
    by (cases t) (simp add: forwarded_def Op_set own_part_def addressing_kwargs_def
        addressing_names_def own_arguments_def)
qed (simp_all add: forwarded_def own_part_addressing_kwargs own_arguments_def)

section \<open>C1: the resolved tuple is what the storage call receives\<close>

text \<open>
  Claim C1 says that each of the six operations forwards the components of
  \<^verbatim>\<open>resolve_context(message, bot.bot_id)\<close> as the addressing arguments of the corresponding
  storage call. One input escapes: \<^verbatim>\<open>add_data(chat_id=5)\<close> repeats a keyword that line 147
  already passes, so Python raises \<^verbatim>\<open>TypeError\<close> at the call of lines 146 to 153 and
  \<^verbatim>\<open>bot.add_data\<close> is never entered: nothing is forwarded and the world is as before.
  \<^verbatim>\<open>add_data(self=1)\<close> fails earlier still: the keyword binds the parameter \<^verbatim>\<open>self\<close> of
  line 135 a second time, the call itself raises \<^verbatim>\<open>TypeError\<close>, and no line of the body
  runs.
\<close>

theorem add_data_duplicate_keyword_is_not_forwarded:
  "run example_collaborators 1 (Op_add_data [(''chat_id'', PInt 5)]) constructed =
     (Inl (TypeError ''chat_id''), constructed) \<and>
   bot_calls (issued example_collaborators 1 (Op_add_data [(''chat_id'', PInt 5)]) constructed)
     = [] \<and>
   run example_collaborators 1 (Op_add_data [(''self'', PInt 1)]) constructed =
     (Inl (TypeError ''self''), constructed) \<and>
   bot_calls (issued example_collaborators 1 (Op_add_data [(''self'', PInt 1)]) constructed)
     = []"
  by (simp add: example_defs eval_defs)

text \<open>
  Claim C1, with the keywords Python accepts (no keyword of \<^verbatim>\<open>add_data\<close> named \<^verbatim>\<open>self\<close> or
  like one of the five addressing keywords): the operation makes exactly one call, of the
  corresponding storage method of its own bot, and the addressing keywords of that call are
  the components of \<^verbatim>\<open>resolve_context(self.message, self.bot.bot_id)\<close>, in the order chat id,
  user id, business-connection id, bot id, message-thread id, none changed and none left
  out.
\<close>

theorem resolved_tuple_is_forwarded:
  assumes "accepted op"
  shows "\<exists>kw. bot_calls (issued E self op w) =
             [(bot_ref (contexts w self), corresponding_method op, kw)] \<and>
           addressing_part kw =
             addressing_kwargs
               (resolve_context E (message (contexts w self))
                  (telebot_bot_id (bots w (bot_ref (contexts w self)))))"
  using assms addressing_part_forwarded [of op "resolved E self w"]
  by (simp add: bot_calls_issued resolved_def)

text \<open>At \<^verbatim>\<open>add_data(name='John')\<close> on the context of message (10, 20) and bot 0.\<close>

theorem resolved_tuple_is_forwarded_witness:
  "accepted (Op_add_data [(''name'', PStr ''John'')]) \<and>
   (\<exists>kw. bot_calls (issued example_collaborators 1
             (Op_add_data [(''name'', PStr ''John'')]) constructed) = [(0, Add_data, kw)] \<and>
          addressing_part kw =
            [(''chat_id'', PInt 10), (''user_id'', PInt 20),
             (''business_connection_id'', PNone), (''bot_id'', PInt 41),
             (''message_thread_id'', PInt 7)])"
proof -
  have a: "accepted (Op_add_data [(''name'', PStr ''John'')])"
    by (simp add: accepted_def addressing_names_def)
  show ?thesis
    using a resolved_tuple_is_forwarded [OF a, of example_collaborators 1 constructed]
    by (simp add: example_defs addressing_kwargs_def corresponding_method_def)
qed

section \<open>C2: coroutines, and the one plain method\<close>

text \<open>
  Claim C2 says that all six operations are asynchronous and await their storage call.
  \<^verbatim>\<open>data\<close> (line 113) is a plain \<^verbatim>\<open>def\<close>: calling it makes the \<^verbatim>\<open>retrieve_data\<close> call at once
  and hands back the object that call returned, with no await in the log. And a coroutine
  of \<^verbatim>\<open>add_data\<close> that repeats an addressing keyword awaits no call at all, while
  \<^verbatim>\<open>add_data(self=1)\<close> raises \<^verbatim>\<open>TypeError\<close> at the call and returns no coroutine.
\<close>

theorem data_is_called_not_awaited:
  "invoke example_collaborators 1 Op_data constructed =
     (Inr (Object (PObj 1)),
      constructed\<lparr>calls :=
        [Call 0 Retrieve_data
           [(''chat_id'', PInt 10), (''user_id'', PInt 20),
            (''business_connection_id'', PNone), (''bot_id'', PInt 41),
            (''message_thread_id'', PInt 7)]]\<rparr>) \<and>
   issued example_collaborators 1 Op_data constructed =
     [Call 0 Retrieve_data
        [(''chat_id'', PInt 10), (''user_id'', PInt 20),
         (''business_connection_id'', PNone), (''bot_id'', PInt 41),
         (''message_thread_id'', PInt 7)]] \<and>
   issued example_collaborators 1 (Op_add_data [(''user_id'', PInt 5)]) constructed = [] \<and>
   invoke example_collaborators 1 (Op_add_data [(''self'', PInt 1)]) constructed =
     (Inl (TypeError ''self''), constructed)"
  by (simp add: example_defs eval_defs)

lemma invoke_coroutine:
  "op \<noteq> Op_data \<Longrightarrow> accepted op \<Longrightarrow>
   \<exists>body. invoke E self op w = (Inr (Coroutine body), w) \<and> (\<forall>w'. body w' = run E self op w')"
  by (cases op) (simp_all add: invoke_def run_def accepted_def no_keyword_named
      first_repeated_distinct)

lemma invoke_data:
  "invoke E self Op_data w =
     (case run E self Op_data w of
        (Inl e, w') \<Rightarrow> (Inl e, w')
      | (Inr v, w') \<Rightarrow> (Inr (Object v), w'))"
  by (simp add: invoke_def run_def split: prod.splits sum.splits)

text \<open>
  Claim C2 as the code has it. With keywords Python accepts (no keyword of \<^verbatim>\<open>add_data\<close>
  named \<^verbatim>\<open>self\<close> or like an addressing keyword): calling \<^verbatim>\<open>set\<close>, \<^verbatim>\<open>get\<close>,
  \<^verbatim>\<open>delete\<close>, \<^verbatim>\<open>reset_data\<close> or \<^verbatim>\<open>add_data\<close> returns a coroutine and leaves the world as it
  is, and the coroutine, in whatever world it is awaited, is exactly the awaited call of the
  corresponding storage method; calling \<^verbatim>\<open>data\<close> is exactly the call of \<^verbatim>\<open>retrieve_data\<close>,
  its result returned as an object and not awaited. Nothing else is done in either case.
\<close>

theorem coroutines_await_and_data_calls:
  assumes "accepted op"
  shows "if op = Op_data
         then \<exists>kw. invoke E self op w =
                (case call_bot E (bot_ref (contexts w self)) Retrieve_data kw w of
                   (Inl e, w') \<Rightarrow> (Inl e, w')
                 | (Inr v, w') \<Rightarrow> (Inr (Object v), w'))
         else \<exists>body. invoke E self op w = (Inr (Coroutine body), w) \<and>
                (\<forall>w'. \<exists>kw. body w' =
                   await_call E (bot_ref (contexts w' self)) (corresponding_method op) kw w')"
proof (cases "op = Op_data")
  case True
  then show ?thesis
    using invoke_data [of E self w] run_unfold [of E self Op_data w]
    by (auto simp add: accepted_def corresponding_method_def)
next
  case False
  then obtain body where
    b: "invoke E self op w = (Inr (Coroutine body), w)" "\<And>w'. body w' = run E self op w'"
    using invoke_coroutine [of op E self w] assms by blast
  have "\<exists>kw. body w' =
          await_call E (bot_ref (contexts w' self)) (corresponding_method op) kw w'" for w'
    using b(2) [of w'] run_unfold [of E self op w'] False assms by auto
  then show ?thesis using False b(1) by simp
qed

text \<open>At \<^verbatim>\<open>get\<close>: a coroutine, which awaits \<^verbatim>\<open>get_state\<close> of bot 0.\<close>

theorem coroutines_await_and_data_calls_witness:
  "accepted Op_get \<and>
   (\<exists>body. invoke example_collaborators 1 Op_get constructed = (Inr (Coroutine body), constructed)
      \<and> (\<exists>kw. body constructed = await_call example_collaborators 0 Get_state kw constructed))"
proof -
  have a: "accepted Op_get" by (simp add: accepted_def)
  have b: "bot_ref (contexts constructed 1) = 0" by (simp add: example_defs)
  obtain body where
    i: "invoke example_collaborators 1 Op_get constructed = (Inr (Coroutine body), constructed)"
    and r: "\<forall>w'. \<exists>kw. body w' =
          await_call example_collaborators (bot_ref (contexts w' 1)) Get_state kw w'"
    using coroutines_await_and_data_calls [OF a, of example_collaborators 1 constructed]
    by (auto simp add: corresponding_method_def)
  obtain kw where "body constructed = await_call example_collaborators 0 Get_state kw constructed"
    using r b by metis
  then show ?thesis using a i by blast
qed

section \<open>C3: the storage operations the class consumes\<close>

text \<open>
  Claim C3 counts five storage operations and names six. The six operations of the class,
  run on one context, call six different methods of the bot; and \<^verbatim>\<open>add_data\<close> with a
  repeated addressing keyword, or with a keyword named \<^verbatim>\<open>self\<close>, calls none.
\<close>

theorem six_storage_operations_are_called:
  "card (set (concat (map (\<lambda>op. methods_called example_collaborators 1 op constructed)
      [Op_set (PStr ''name''), Op_get, Op_delete, Op_reset_data, Op_data,
       Op_add_data [(''age'', PInt 30)]]))) = 6 \<and>
   methods_called example_collaborators 1 (Op_add_data [(''bot_id'', PInt 30)]) constructed = [] \<and>
   methods_called example_collaborators 1 (Op_add_data [(''self'', PInt 30)]) constructed = []"
  by (simp add: example_defs eval_defs methods_called_def)

lemma UNIV_bot_method:
  "(UNIV :: bot_method set) =
     {Set_state, Get_state, Delete_state, Reset_data, Retrieve_data, Add_data}"
proof -
  have "m \<in> {Set_state, Get_state, Delete_state, Reset_data, Retrieve_data, Add_data}" for m
    by (cases m) simp_all
  then show ?thesis by blast
qed

text \<open>
  Claim C3 with the count the code has: an operation whose keywords Python accepts (no
  keyword of \<^verbatim>\<open>add_data\<close> named \<^verbatim>\<open>self\<close> or like an addressing keyword) makes exactly one call, of the corresponding storage method, keyed by the resolved tuple; each
  storage method is the one call of some operation; and the storage methods are six.
\<close>

theorem one_call_of_six_operations:
  "(accepted op \<longrightarrow>
      (\<exists>kw. bot_calls (issued E self op w) =
               [(bot_ref (contexts w self), corresponding_method op, kw)] \<and>
             addressing_part kw = addressing_kwargs (resolved E self w))) \<and>
   (\<forall>m. \<exists>op'. accepted op' \<and> methods_called E self op' w = [m]) \<and>
   card (UNIV :: bot_method set) = 6"
proof -
  have one: "accepted op \<longrightarrow>
      (\<exists>kw. bot_calls (issued E self op w) =
               [(bot_ref (contexts w self), corresponding_method op, kw)] \<and>
             addressing_part kw = addressing_kwargs (resolved E self w))"
    using addressing_part_forwarded [of op "resolved E self w"]
    by (simp add: bot_calls_issued)
  have all: "\<exists>op'. accepted op' \<and> methods_called E self op' w = [m]" for m
  proof (cases m)
    case Set_state
    have "accepted (Op_set PNone) \<and> methods_called E self (Op_set PNone) w = [m]"
      by (simp add: Set_state methods_called_def bot_calls_issued accepted_def
          corresponding_method_def)
    then show ?thesis by blast
  next
    case Get_state
    have "accepted Op_get \<and> methods_called E self Op_get w = [m]"
      by (simp add: Get_state methods_called_def bot_calls_issued accepted_def
          corresponding_method_def)
    then show ?thesis by blast
  next
    case Delete_state
    have "accepted Op_delete \<and> methods_called E self Op_delete w = [m]"
      by (simp add: Delete_state methods_called_def bot_calls_issued accepted_def
          corresponding_method_def)
    then show ?thesis by blast
  next
    case Reset_data
    have "accepted Op_reset_data \<and> methods_called E self Op_reset_data w = [m]"
      by (simp add: Reset_data methods_called_def bot_calls_issued accepted_def
          corresponding_method_def)
    then show ?thesis by blast
  next
    case Retrieve_data
    have "accepted Op_data \<and> methods_called E self Op_data w = [m]"
      by (simp add: Retrieve_data methods_called_def bot_calls_issued accepted_def
          corresponding_method_def)
    then show ?thesis by blast
  next
    case Add_data
    have "accepted (Op_add_data []) \<and> methods_called E self (Op_add_data []) w = [m]"
      by (simp add: Add_data methods_called_def bot_calls_issued accepted_def
          corresponding_method_def)
    then show ?thesis by blast
  qed
  have six: "card (UNIV :: bot_method set) = 6"
    by (simp add: UNIV_bot_method)
  show ?thesis using one all six by blast
qed

text \<open>At \<^verbatim>\<open>delete\<close>.\<close>

theorem one_call_of_six_operations_witness:
  "accepted Op_delete \<and>
   (\<exists>kw. bot_calls (issued example_collaborators 1 Op_delete constructed) =
            [(0, Delete_state, kw)] \<and>
          addressing_part kw =
            [(''chat_id'', PInt 10), (''user_id'', PInt 20),
             (''business_connection_id'', PNone), (''bot_id'', PInt 41),
             (''message_thread_id'', PInt 7)])"
proof -
  have a: "accepted Op_delete" by (simp add: accepted_def)
  show ?thesis
    using a one_call_of_six_operations [of Op_delete example_collaborators 1 constructed]
    by (simp add: example_defs addressing_kwargs_def corresponding_method_def resolved_def)
qed

section \<open>C4: delegation\<close>

text \<open>
  Claim C4 says that no method branches or transforms an argument and that each returns
  what the storage call returns. \<^verbatim>\<open>set\<close> given a \<^verbatim>\<open>State\<close> takes the branch of lines 47 and
  48 and passes the name, not the object it was given; and \<^verbatim>\<open>add_data\<close> with a repeated
  addressing keyword, or with a keyword named \<^verbatim>\<open>self\<close>, returns an error that no storage
  call produced.
\<close>

theorem set_forwards_a_name_not_its_argument:
  "bot_calls (issued example_collaborators 1 (Op_set (PState (PStr ''name''))) constructed) =
     [(0, Set_state,
       [(''chat_id'', PInt 10), (''user_id'', PInt 20), (''state'', PStr ''name''),
        (''business_connection_id'', PNone), (''bot_id'', PInt 41),
        (''message_thread_id'', PInt 7)])] \<and>
   run example_collaborators 1 (Op_add_data [(''message_thread_id'', PInt 3)]) constructed =
     (Inl (TypeError ''message_thread_id''), constructed) \<and>
   run example_collaborators 1 (Op_add_data [(''self'', PStr ''me'')]) constructed =
     (Inl (TypeError ''self''), constructed)"
  by (simp add: example_defs eval_defs)

text \<open>
  Claim C4 as the code has it. With keywords Python accepts (no keyword of \<^verbatim>\<open>add_data\<close>
  named \<^verbatim>\<open>self\<close> or like an addressing keyword), a method is one storage call
  (awaited, but for \<^verbatim>\<open>data\<close>) and returns the result and the world of that call; the
  addressing keywords are the resolved tuple, and the other keywords are the method's own
  arguments: none for \<^verbatim>\<open>get\<close>, \<^verbatim>\<open>delete\<close>, \<^verbatim>\<open>reset_data\<close> and \<^verbatim>\<open>data\<close>, the keyword
  arguments of \<^verbatim>\<open>add_data\<close> unchanged, and for \<^verbatim>\<open>set\<close> the keyword \<^verbatim>\<open>state\<close>, which is the
  name of a \<^verbatim>\<open>State\<close> argument and any other argument unchanged.
\<close>

theorem methods_delegate:
  assumes "accepted op"
  shows "\<exists>kw. run E self op w =
            (if op = Op_data then call_bot else await_call) E (bot_ref (contexts w self))
              (corresponding_method op) kw w \<and>
          addressing_part kw = addressing_kwargs (resolved E self w) \<and>
          own_part kw = own_arguments op"
  using assms addressing_part_forwarded [of op "resolved E self w"]
    own_part_forwarded [of op "resolved E self w"] run_unfold [of E self op w]
  by (intro exI [of _ "forwarded (resolved E self w) op"]) simp

text \<open>At \<^verbatim>\<open>set\<close> of a \<^verbatim>\<open>State\<close> named \<open>name\<close>.\<close>

theorem methods_delegate_witness:
  "accepted (Op_set (PState (PStr ''name''))) \<and>
   (\<exists>kw. run example_collaborators 1 (Op_set (PState (PStr ''name''))) constructed =
            await_call example_collaborators 0 Set_state kw constructed \<and>
          addressing_part kw =
            [(''chat_id'', PInt 10), (''user_id'', PInt 20),
             (''business_connection_id'', PNone), (''bot_id'', PInt 41),
             (''message_thread_id'', PInt 7)] \<and>
          own_part kw = [(''state'', PStr ''name'')])"
proof -
  have a: "accepted (Op_set (PState (PStr ''name'')))" by (simp add: accepted_def)
  have b: "bot_ref (contexts constructed 1) = 0" by (simp add: example_defs)
  have t: "addressing_kwargs (resolved example_collaborators 1 constructed) =
            [(''chat_id'', PInt 10), (''user_id'', PInt 20),
             (''business_connection_id'', PNone), (''bot_id'', PInt 41),
             (''message_thread_id'', PInt 7)]"
    by (simp add: example_defs addressing_kwargs_def resolved_def)
  have m: "corresponding_method (Op_set (PState (PStr ''name''))) = Set_state"
    by (simp add: corresponding_method_def)
  have o: "own_arguments (Op_set (PState (PStr ''name''))) = [(''state'', PStr ''name'')]"
    by (simp add: own_arguments_def)
  obtain kw where
    r: "run example_collaborators 1 (Op_set (PState (PStr ''name''))) constructed =
       (if Op_set (PState (PStr ''name'')) = Op_data then call_bot else await_call)
         example_collaborators (bot_ref (contexts constructed 1))
         (corresponding_method (Op_set (PState (PStr ''name'')))) kw constructed"
    and p: "addressing_part kw =
         addressing_kwargs (resolved example_collaborators 1 constructed)"
    and q: "own_part kw = own_arguments (Op_set (PState (PStr ''name'')))"
    using methods_delegate [OF a, of example_collaborators 1 constructed] by blast
  have "run example_collaborators 1 (Op_set (PState (PStr ''name''))) constructed =
          await_call example_collaborators 0 Set_state kw constructed"
    using r unfolding b m by simp
  then show ?thesis using a p q unfolding t o by blast
qed

lemma bot_calls_issued_cases:
  assumes "(b, m, kw) \<in> set (bot_calls (issued E self op w))"
  shows "accepted op \<and> b = bot_ref (contexts w self) \<and> m = corresponding_method op \<and>
         kw = forwarded (resolved E self w) op"
  using assms by (simp add: bot_calls_issued split: if_splits)

section \<open>C5: errors and values of the storage call\<close>

text \<open>
  Claim C5: an operation makes at most one storage call. When that call raises, the
  operation raises the same error and the log ends with that call; when it returns, the
  operation returns what the await of its result raises or returns (\<^verbatim>\<open>data\<close>: the returned
  object itself). Nothing is caught, changed or retried.
\<close>

theorem storage_results_propagate:
  "length (bot_calls (issued E self op w)) \<le> 1 \<and>
   (\<forall>(b, m, kw) \<in> set (bot_calls (issued E self op w)).
      case bot_method_call E b m kw (bots w) of
        (Inl e, bs) \<Rightarrow>
          run E self op w = (Inl e, w\<lparr>bots := bs, calls := calls w @ [Call b m kw]\<rparr>)
      | (Inr obj, bs) \<Rightarrow>
          if op = Op_data
          then run E self op w =
                 (Inr obj, w\<lparr>bots := bs, calls := calls w @ [Call b m kw]\<rparr>)
          else (case await_value E obj bs of
                  (r, bs') \<Rightarrow>
                    run E self op w =
                      (r, w\<lparr>bots := bs', calls := calls w @ [Call b m kw, Await obj]\<rparr>)))"
proof -
  have one: "length (bot_calls (issued E self op w)) \<le> 1"
    by (simp add: bot_calls_issued)
  have each: "case bot_method_call E b m kw (bots w) of
        (Inl e, bs) \<Rightarrow>
          run E self op w = (Inl e, w\<lparr>bots := bs, calls := calls w @ [Call b m kw]\<rparr>)
      | (Inr obj, bs) \<Rightarrow>
          if op = Op_data
          then run E self op w =
                 (Inr obj, w\<lparr>bots := bs, calls := calls w @ [Call b m kw]\<rparr>)
          else (case await_value E obj bs of
                  (r, bs') \<Rightarrow>
                    run E self op w =
                      (r, w\<lparr>bots := bs', calls := calls w @ [Call b m kw, Await obj]\<rparr>))"
    if "(b, m, kw) \<in> set (bot_calls (issued E self op w))" for b m kw
  proof -
    have c: "accepted op" "b = bot_ref (contexts w self)" "m = corresponding_method op"
      "kw = forwarded (resolved E self w) op"
      using bot_calls_issued_cases [OF that] by simp_all
    have r: "run E self op w = (if op = Op_data then call_bot else await_call) E b m kw w"
      using c by (simp add: run_unfold)
    show ?thesis
      unfolding r
      by (simp add: call_bot_def await_call_def await_def split: prod.splits sum.splits)
  qed
  show ?thesis
  proof (intro conjI ballI)
    show "length (bot_calls (issued E self op w)) \<le> 1" by (rule one)
  next
    fix x
    assume x: "x \<in> set (bot_calls (issued E self op w))"
    obtain b m kw where xeq: "x = (b, m, kw)" by (cases x)
    show "case x of (b, m, kw) \<Rightarrow>
       (case bot_method_call E b m kw (bots w) of
        (Inl e, bs) \<Rightarrow>
          run E self op w = (Inl e, w\<lparr>bots := bs, calls := calls w @ [Call b m kw]\<rparr>)
      | (Inr obj, bs) \<Rightarrow>
          if op = Op_data
          then run E self op w =
                 (Inr obj, w\<lparr>bots := bs, calls := calls w @ [Call b m kw]\<rparr>)
          else (case await_value E obj bs of
                  (r, bs') \<Rightarrow>
                    run E self op w =
                      (r, w\<lparr>bots := bs', calls := calls w @ [Call b m kw, Await obj]\<rparr>)))"
      unfolding xeq prod.case using each x [unfolded xeq] .
  qed
qed

text \<open>
  At \<^verbatim>\<open>get\<close>: with a storage that raises, the error comes out and the log holds the one
  call; with the storage that answers \<open>True\<close>, \<open>True\<close> comes out.
\<close>

theorem storage_results_propagate_witness:
  "run failing_collaborators 1 Op_get constructed =
     (Inl (Raised ''storage unavailable''),
      constructed\<lparr>calls :=
        [Call 0 Get_state
           [(''chat_id'', PInt 10), (''user_id'', PInt 20),
            (''business_connection_id'', PNone), (''bot_id'', PInt 41),
            (''message_thread_id'', PInt 7)]]\<rparr>) \<and>
   fst (run example_collaborators 1 Op_get constructed) = Inr (PBool True)"
  using storage_results_propagate [of failing_collaborators 1 Op_get constructed]
    storage_results_propagate [of example_collaborators 1 Op_get constructed]
  by (simp add: example_defs failing_collaborators_def eval_defs)

section \<open>C6: the shape of the addressing key\<close>

text \<open>
  Claim C6: the addressing keywords of every storage call are five, in the order chat id,
  user id, business-connection id, bot id, message-thread id; chat id, user id and bot id
  always carry a value, while business-connection id and message-thread id carry
  \<^verbatim>\<open>None\<close> exactly when the resolved tuple has none.
\<close>

theorem addressing_key_has_five_components:
  "\<forall>(b, m, kw) \<in> set (bot_calls (issued E self op w)).
     \<exists>cid uid bcid bid mtid.
       resolve_context E (message (contexts w self))
         (telebot_bot_id (bots w (bot_ref (contexts w self)))) =
           (cid, uid, bcid, bid, mtid) \<and>
       addressing_part kw =
         [(''chat_id'', PInt cid),
          (''user_id'', PInt uid),
          (''business_connection_id'', case bcid of None \<Rightarrow> PNone | Some c \<Rightarrow> PStr c),
          (''bot_id'', PInt bid),
          (''message_thread_id'', case mtid of None \<Rightarrow> PNone | Some t \<Rightarrow> PInt t)]"
proof -
  have "\<exists>cid uid bcid bid mtid.
       resolve_context E (message (contexts w self))
         (telebot_bot_id (bots w (bot_ref (contexts w self)))) =
           (cid, uid, bcid, bid, mtid) \<and>
       addressing_part kw =
         [(''chat_id'', PInt cid),
          (''user_id'', PInt uid),
          (''business_connection_id'', case bcid of None \<Rightarrow> PNone | Some c \<Rightarrow> PStr c),
          (''bot_id'', PInt bid),
          (''message_thread_id'', case mtid of None \<Rightarrow> PNone | Some t \<Rightarrow> PInt t)]"
    if "(b, m, kw) \<in> set (bot_calls (issued E self op w))" for b m kw
  proof -
    have c: "accepted op" "kw = forwarded (resolved E self w) op"
      using bot_calls_issued_cases [OF that] by simp_all
    obtain cid uid bcid bid mtid where t: "resolved E self w = (cid, uid, bcid, bid, mtid)"
      by (cases "resolved E self w")
    have "addressing_part kw = addressing_kwargs (cid, uid, bcid, bid, mtid)"
      using c addressing_part_forwarded [of op "resolved E self w"] by (simp add: t)
    then have "addressing_part kw =
         [(''chat_id'', PInt cid),
          (''user_id'', PInt uid),
          (''business_connection_id'', case bcid of None \<Rightarrow> PNone | Some c \<Rightarrow> PStr c),
          (''bot_id'', PInt bid),
          (''message_thread_id'', case mtid of None \<Rightarrow> PNone | Some t \<Rightarrow> PInt t)]"
      by (cases bcid; cases mtid) (simp_all add: addressing_kwargs_def)
    then show ?thesis using t by (simp add: resolved_def)
  qed
  then show ?thesis by fast
qed

text \<open>
  At \<^verbatim>\<open>add_data(name='John')\<close>: no business connection (\<^verbatim>\<open>None\<close>), message thread 7.
\<close>

theorem addressing_key_has_five_components_witness:
  "\<exists>kw. bot_calls (issued example_collaborators 1 (Op_add_data [(''name'', PStr ''John'')])
            constructed) = [(0, Add_data, kw)] \<and>
     addressing_part kw =
       [(''chat_id'', PInt 10), (''user_id'', PInt 20), (''business_connection_id'', PNone),
        (''bot_id'', PInt 41), (''message_thread_id'', PInt 7)]"
  using addressing_key_has_five_components
    [of example_collaborators 1 "Op_add_data [(''name'', PStr ''John'')]" constructed]
  by (simp add: example_defs eval_defs)

section \<open>C7: addressing depends on the message and the bot id only\<close>

text \<open>
  Claim C7: take any two uses of any operations, in any two worlds and through any two
  contexts. When the stored messages are equal and the bots' current bot ids are equal,
  the storage calls they make carry the same addressing keywords. The worlds may differ in
  everything else, the operations performed before included.
\<close>

theorem addressing_is_deterministic:
  assumes "message (contexts w1 self1) = message (contexts w2 self2)"
    and "telebot_bot_id (bots w1 (bot_ref (contexts w1 self1))) =
         telebot_bot_id (bots w2 (bot_ref (contexts w2 self2)))"
    and "(b1, m1, kw1) \<in> set (bot_calls (issued E self1 op1 w1))"
    and "(b2, m2, kw2) \<in> set (bot_calls (issued E self2 op2 w2))"
  shows "addressing_part kw1 = addressing_part kw2"
proof -
  have t: "resolved E self1 w1 = resolved E self2 w2"
    using assms(1,2) by (simp add: resolved_def)
  have "addressing_part kw1 = addressing_kwargs (resolved E self1 w1)"
    using bot_calls_issued_cases [OF assms(3)]
      addressing_part_forwarded [of op1 "resolved E self1 w1"] by simp
  moreover have "addressing_part kw2 = addressing_kwargs (resolved E self2 w2)"
    using bot_calls_issued_cases [OF assms(4)]
      addressing_part_forwarded [of op2 "resolved E self2 w2"] by simp
  ultimately show ?thesis by (simp add: t)
qed

text \<open>At \<^verbatim>\<open>set('name')\<close>, and \<^verbatim>\<open>add_data(age=30)\<close> in the world that \<^verbatim>\<open>set\<close> left.\<close>

theorem addressing_is_deterministic_witness:
  "(0, Set_state,
      [(''chat_id'', PInt 10), (''user_id'', PInt 20), (''state'', PStr ''name''),
       (''business_connection_id'', PNone), (''bot_id'', PInt 41),
       (''message_thread_id'', PInt 7)])
     \<in> set (bot_calls (issued example_collaborators 1 (Op_set (PStr ''name'')) constructed)) \<and>
   (0, Add_data,
      [(''chat_id'', PInt 10), (''user_id'', PInt 20), (''business_connection_id'', PNone),
       (''bot_id'', PInt 41), (''message_thread_id'', PInt 7), (''age'', PInt 30)])
     \<in> set (bot_calls (issued example_collaborators 1 (Op_add_data [(''age'', PInt 30)])
          (snd (run example_collaborators 1 (Op_set (PStr ''name'')) constructed)))) \<and>
   addressing_part
     [(''chat_id'', PInt 10), (''user_id'', PInt 20), (''state'', PStr ''name''),
      (''business_connection_id'', PNone), (''bot_id'', PInt 41),
      (''message_thread_id'', PInt 7)] =
   addressing_part
     [(''chat_id'', PInt 10), (''user_id'', PInt 20), (''business_connection_id'', PNone),
      (''bot_id'', PInt 41), (''message_thread_id'', PInt 7), (''age'', PInt 30)]"
proof -
  let ?w2 = "snd (run example_collaborators 1 (Op_set (PStr ''name'')) constructed)"
  have h1: "message (contexts constructed 1) = message (contexts ?w2 1)"
    by (simp add: example_defs eval_defs)
  have h2: "telebot_bot_id (bots constructed (bot_ref (contexts constructed 1))) =
            telebot_bot_id (bots ?w2 (bot_ref (contexts ?w2 1)))"
    by (simp add: example_defs eval_defs)
  have h3: "(0, Set_state,
       [(''chat_id'', PInt 10), (''user_id'', PInt 20), (''state'', PStr ''name''),
        (''business_connection_id'', PNone), (''bot_id'', PInt 41),
        (''message_thread_id'', PInt 7)])
      \<in> set (bot_calls (issued example_collaborators 1 (Op_set (PStr ''name'')) constructed))"
    by (simp add: example_defs eval_defs)
  have h4: "(0, Add_data,
       [(''chat_id'', PInt 10), (''user_id'', PInt 20), (''business_connection_id'', PNone),
        (''bot_id'', PInt 41), (''message_thread_id'', PInt 7), (''age'', PInt 30)])
      \<in> set (bot_calls (issued example_collaborators 1 (Op_add_data [(''age'', PInt 30)]) ?w2))"
    by (simp add: example_defs eval_defs)
  show ?thesis
    using h3 h4 addressing_is_deterministic [OF h1 h2 h3 h4] by blast
qed

lemma set_run:
  "bot_calls (issued E self (Op_set state) w) =
     [(bot_ref (contexts w self), Set_state, forwarded (resolved E self w) (Op_set state))] \<and>
   map_of (forwarded (resolved E self w) (Op_set state)) ''state'' =
     Some (case state of PState name \<Rightarrow> name | _ \<Rightarrow> state) \<and>
   run E self (Op_set state) w =
     await_call E (bot_ref (contexts w self)) Set_state
       (forwarded (resolved E self w) (Op_set state)) w"
  by (cases "resolved E self w")
    (simp add: bot_calls_issued run_unfold accepted_def corresponding_method_def forwarded_def
      addressing_kwargs_def)

section \<open>C8: what set passes as the state\<close>

text \<open>
  Claim C8: \<^verbatim>\<open>set\<close> called with a \<^verbatim>\<open>State\<close> passes its name as the keyword \<^verbatim>\<open>state\<close> of
  \<^verbatim>\<open>set_state\<close>; called with a string it passes the string; and in both cases it returns
  what the awaited \<^verbatim>\<open>set_state\<close> call returns.
\<close>

theorem set_forwards_the_state_name:
  "(\<exists>kw. bot_calls (issued E self (Op_set (PState name)) w) =
            [(bot_ref (contexts w self), Set_state, kw)] \<and>
          map_of kw ''state'' = Some name \<and>
          run E self (Op_set (PState name)) w =
            await_call E (bot_ref (contexts w self)) Set_state kw w) \<and>
   (\<exists>kw. bot_calls (issued E self (Op_set (PStr s)) w) =
            [(bot_ref (contexts w self), Set_state, kw)] \<and>
          map_of kw ''state'' = Some (PStr s) \<and>
          run E self (Op_set (PStr s)) w =
            await_call E (bot_ref (contexts w self)) Set_state kw w)"
  using set_run [of E self "PState name" w] set_run [of E self "PStr s" w]
  by simp

text \<open>A \<^verbatim>\<open>State\<close> named \<open>name\<close> and the string \<open>name\<close> give the same call.\<close>

theorem set_forwards_the_state_name_witness:
  "bot_calls (issued example_collaborators 1 (Op_set (PState (PStr ''name''))) constructed) =
     bot_calls (issued example_collaborators 1 (Op_set (PStr ''name'')) constructed) \<and>
   fst (run example_collaborators 1 (Op_set (PState (PStr ''name''))) constructed) =
     Inr (PBool True)"
  using set_forwards_the_state_name [of example_collaborators 1 "PStr ''name''" constructed]
  by (simp add: example_defs eval_defs)

lemma call_bot_recache:
  "call_bot E b m kw (recache self cached w) =
     (case call_bot E b m kw w of (r, w') \<Rightarrow> (r, recache self cached w'))"
  by (simp add: call_bot_def recache_def split: prod.splits)

lemma await_recache:
  "await E obj (recache self cached w) =
     (case await E obj w of (r, w') \<Rightarrow> (r, recache self cached w'))"
  by (simp add: await_def recache_def split: prod.splits)

lemma await_call_recache:
  "await_call E b m kw (recache self cached w) =
     (case await_call E b m kw w of (r, w') \<Rightarrow> (r, recache self cached w'))"
  by (simp add: await_call_def call_bot_recache await_recache split: prod.splits sum.splits)

lemma recache_reads:
  "message (contexts (recache self cached w) self) = message (contexts w self)"
  "bot_ref (contexts (recache self cached w) self) = bot_ref (contexts w self)"
  "bots (recache self cached w) = bots w"
  by (simp_all add: recache_def)

lemma run_recache:
  "run E self op (recache self cached w) =
     (case run E self op w of (r, w') \<Rightarrow> (r, recache self cached w'))"
proof -
  have t: "resolved E self (recache self cached w) = resolved E self w"
    by (simp add: resolved_def recache_reads)
  show ?thesis
  proof (cases "accepted op")
    case True
    then show ?thesis
      by (simp add: run_unfold t recache_reads call_bot_recache await_call_recache)
  next
    case False
    then show ?thesis by (simp add: run_unfold)
  qed
qed

section \<open>C9: the cached bot id\<close>

text \<open>
  Claim C9: whatever the attribute \<^verbatim>\<open>bot_id\<close> of the context holds, an operation does the
  same and returns the same. The addressing keywords of its storage call come from
  \<^verbatim>\<open>resolve_context\<close> applied to the bot's current \<^verbatim>\<open>bot_id\<close>; so when \<^verbatim>\<open>resolve_context\<close>
  hands that id on as the fourth component, the keyword \<^verbatim>\<open>bot_id\<close> is the current id.
\<close>

theorem cached_bot_id_is_never_read:
  "run E self op (recache self cached w) =
     (case run E self op w of (r, w') \<Rightarrow> (r, recache self cached w')) \<and>
   (\<forall>(b, m, kw) \<in> set (bot_calls (issued E self op w)).
      addressing_part kw =
        addressing_kwargs
          (resolve_context E (message (contexts w self))
             (telebot_bot_id (bots w (bot_ref (contexts w self))))) \<and>
      (fst (snd (snd (snd (resolve_context E (message (contexts w self))
             (telebot_bot_id (bots w (bot_ref (contexts w self)))))))) =
         telebot_bot_id (bots w (bot_ref (contexts w self))) \<longrightarrow>
       map_of kw ''bot_id'' = Some (PInt (telebot_bot_id (bots w (bot_ref (contexts w self)))))))"
proof (intro conjI ballI)
  show "run E self op (recache self cached w) =
     (case run E self op w of (r, w') \<Rightarrow> (r, recache self cached w'))"
    by (rule run_recache)
next
  fix x
  assume x: "x \<in> set (bot_calls (issued E self op w))"
  obtain b m kw where xeq: "x = (b, m, kw)" by (cases x)
  have c: "accepted op" "kw = forwarded (resolved E self w) op"
    using bot_calls_issued_cases [OF x [unfolded xeq]] by simp_all
  have a: "addressing_part kw = addressing_kwargs (resolved E self w)"
    using c addressing_part_forwarded [of op "resolved E self w"] by simp
  have l: "map_of kw ''bot_id'' = Some (PInt (fst (snd (snd (snd (resolved E self w))))))"
    unfolding c(2)
    by (cases "resolved E self w"; cases op)
      (simp_all add: forwarded_def addressing_kwargs_def)
  show "case x of (b, m, kw) \<Rightarrow>
      addressing_part kw =
        addressing_kwargs
          (resolve_context E (message (contexts w self))
             (telebot_bot_id (bots w (bot_ref (contexts w self))))) \<and>
      (fst (snd (snd (snd (resolve_context E (message (contexts w self))
             (telebot_bot_id (bots w (bot_ref (contexts w self)))))))) =
         telebot_bot_id (bots w (bot_ref (contexts w self))) \<longrightarrow>
       map_of kw ''bot_id'' = Some (PInt (telebot_bot_id (bots w (bot_ref (contexts w self))))))"
    unfolding xeq prod.case using a l by (simp add: resolved_def)
qed

text \<open>
  The context was constructed when the bot's id was 41, and the id is 42 now: 42 is passed.
\<close>

theorem cached_bot_id_is_never_read_witness:
  "bot_id (contexts renamed 1) = 41 \<and>
   telebot_bot_id (bots renamed (bot_ref (contexts renamed 1))) = 42 \<and>
   (\<exists>kw. bot_calls (issued example_collaborators 1 Op_get renamed) = [(0, Get_state, kw)] \<and>
      map_of kw ''bot_id'' = Some (PInt 42)) \<and>
   fst (run example_collaborators 1 Op_get (recache 1 42 renamed)) =
     fst (run example_collaborators 1 Op_get renamed)"
  using cached_bot_id_is_never_read [of example_collaborators 1 Op_get 42 renamed]
  by (simp add: example_defs renamed_def eval_defs recache_def)

lemma contexts_call_bot: "contexts (snd (call_bot E b m kw w)) = contexts w"
  by (simp add: call_bot_def split: prod.splits)

lemma contexts_await_call: "contexts (snd (await_call E b m kw w)) = contexts w"
  by (simp add: await_call_def call_bot_def await_def split: prod.splits sum.splits)

lemma contexts_run: "contexts (snd (run E self op w)) = contexts w"
  by (simp add: run_unfold contexts_call_bot contexts_await_call)

section \<open>C10: the context object is left as it was\<close>

text \<open>
  Claim C10: calling an operation, and awaiting it, leaves every context object with the
  \<^verbatim>\<open>message\<close>, \<^verbatim>\<open>bot\<close> and \<^verbatim>\<open>bot_id\<close> it had.
\<close>

theorem context_object_is_not_mutated:
  "contexts (snd (invoke E self op w)) = contexts w \<and>
   contexts (snd (run E self op w)) = contexts w"
proof -
  have "contexts (snd (invoke E self op w)) = contexts w"
  proof (cases "op = Op_data")
    case True
    then show ?thesis
      using contexts_run [of E self Op_data w]
      by (cases "run E self Op_data w") (auto simp add: invoke_data split: sum.splits)
  next
    case False
    then show ?thesis by (cases op) (simp_all add: invoke_def split: option.splits)
  qed
  then show ?thesis by (simp add: contexts_run)
qed

text \<open>After \<^verbatim>\<open>set('name')\<close> the context 1 is as constructed.\<close>

theorem context_object_is_not_mutated_witness:
  "contexts (snd (run example_collaborators 1 (Op_set (PStr ''name'')) constructed)) 1 =
     \<lparr>message = (10, 20), bot_ref = 0, bot_id = 41\<rparr>"
  using context_object_is_not_mutated
    [of example_collaborators 1 "Op_set (PStr ''name'')" constructed]
  by (simp add: example_defs)

end
